theory Spec2Isabelle
  imports Complex_Main "HOL-Library.Word" "HOL-Library.Sublist"
begin

section \<open>JavaScript strings\<close>

text \<open>
  A JavaScript string is a sequence of UTF-16 code units.
\<close>

type_synonym jsstring = "16 word list"

definition js :: "string \<Rightarrow> jsstring" where
  "js s = map of_char s"

definition NL :: "16 word" where
  "NL = 0x0A"

definition EQ :: "16 word" where
  "EQ = 0x3D"

text \<open>\<^verbatim>\<open>s.split(c)\<close> for a separator \<open>c\<close> of one code unit: the pieces between the
  occurrences of \<open>c\<close>; the empty string gives one empty piece.\<close>

fun split_char :: "'a \<Rightarrow> 'a list \<Rightarrow> 'a list list" where
  "split_char c [] = [[]]"
| "split_char c (x # xs) =
     (if x = c then [] # split_char c xs
      else (case split_char c xs of [] \<Rightarrow> [[x]] | l # ls \<Rightarrow> (x # l) # ls))"

text \<open>\<^verbatim>\<open>s.startsWith(p)\<close>.\<close>

definition startsWith :: "'a list \<Rightarrow> 'a list \<Rightarrow> bool" where
  "startsWith s p \<longleftrightarrow> take (length p) s = p"

text \<open>\<^verbatim>\<open>s.split(sep)[0]\<close> for a non-empty separator: the text before the first
  occurrence of \<open>sep\<close>, the whole string when there is none.\<close>

fun split_first :: "'a list \<Rightarrow> 'a list \<Rightarrow> 'a list" where
  "split_first sep [] = []"
| "split_first sep (x # xs) =
     (if startsWith (x # xs) sep then [] else x # split_first sep xs)"

text \<open>\<^verbatim>\<open>s.includes(pat)\<close>.\<close>

fun includes_str :: "'a list \<Rightarrow> 'a list \<Rightarrow> bool" where
  "includes_str [] pat \<longleftrightarrow> pat = []"
| "includes_str (x # xs) pat \<longleftrightarrow> startsWith (x # xs) pat \<or> includes_str xs pat"

text \<open>\<^verbatim>\<open>lines.join(sep)\<close>.\<close>

fun join :: "'a list \<Rightarrow> 'a list list \<Rightarrow> 'a list" where
  "join sep [] = []"
| "join sep [l] = l"
| "join sep (l # ls) = l @ sep @ join sep ls"

text \<open>\<^verbatim>\<open>s.trim()\<close> removes white space and line terminators from both ends: TAB, LF,
  VT, FF, CR, SPACE, NBSP, U+1680, U+2000 to U+200A, U+2028, U+2029, U+202F, U+205F,
  U+3000 and U+FEFF.\<close>

definition is_space :: "16 word \<Rightarrow> bool" where
  "is_space c \<longleftrightarrow>
     c \<in> {0x09, 0x0A, 0x0B, 0x0C, 0x0D, 0x20, 0xA0, 0x1680, 0x2028, 0x2029, 0x202F,
           0x205F, 0x3000, 0xFEFF}
     \<or> (0x2000 \<le> c \<and> c \<le> 0x200A)"

definition trim :: "jsstring \<Rightarrow> jsstring" where
  "trim s = rev (dropWhile is_space (rev (dropWhile is_space s)))"

text \<open>\<^verbatim>\<open>xs[i]\<close>: \<^verbatim>\<open>undefined\<close> (here \<open>None\<close>) outside the array.\<close>

definition js_index :: "'a list \<Rightarrow> int \<Rightarrow> 'a option" where
  "js_index xs i = (if 0 \<le> i \<and> i < int (length xs) then Some (xs ! nat i) else None)"

text \<open>A value that is a string, \<^verbatim>\<open>null\<close> or \<^verbatim>\<open>undefined\<close> is a
  \<open>jsstring option\<close>. Inside a template literal \<^verbatim>\<open>undefined\<close> prints as its name.\<close>

definition template :: "jsstring option \<Rightarrow> jsstring" where
  "template v = (case v of None \<Rightarrow> js ''undefined'' | Some s \<Rightarrow> s)"

text \<open>A \<^verbatim>\<open>Set\<close> of strings keeps its elements in the order of their first insertion.\<close>

definition set_add :: "'a list \<Rightarrow> 'a \<Rightarrow> 'a list" where
  "set_add xs x = (if x \<in> set xs then xs else xs @ [x])"

section \<open>Text in files\<close>

text \<open>
  \<^verbatim>\<open>fs.writeFileSync\<close> encodes a string as UTF-8 and
  \<^verbatim>\<open>fs.readFileSync(path, 'utf-8')\<close> decodes the bytes of the file. A surrogate code unit
  that is not part of a pair has no encoding: it is written as the encoding of U+FFFD, so
  it is read back as U+FFFD. A high surrogate followed by a low surrogate is a pair and
  is read back as it was written, and so is every other code unit. \<open>utf8_text s\<close> is what
  is read from a file to which \<open>s\<close> was written.
\<close>

definition is_high_surrogate :: "16 word \<Rightarrow> bool" where
  "is_high_surrogate c \<longleftrightarrow> 0xD800 \<le> c \<and> c \<le> 0xDBFF"

definition is_low_surrogate :: "16 word \<Rightarrow> bool" where
  "is_low_surrogate c \<longleftrightarrow> 0xDC00 \<le> c \<and> c \<le> 0xDFFF"

text \<open>What a code unit outside a pair is read back as.\<close>

definition lone :: "16 word \<Rightarrow> 16 word" where
  "lone c = (if is_high_surrogate c \<or> is_low_surrogate c then 0xFFFD else c)"

text \<open>A code unit that is not a surrogate.\<close>

definition plain :: "16 word \<Rightarrow> bool" where
  "plain c \<longleftrightarrow> \<not> is_high_surrogate c \<and> \<not> is_low_surrogate c"

fun utf8_text :: "jsstring \<Rightarrow> jsstring" where
  "utf8_text [] = []"
| "utf8_text [c] = [lone c]"
| "utf8_text (c # d # rest) =
     (if is_high_surrogate c \<and> is_low_surrogate d then c # d # utf8_text rest
      else lone c # utf8_text (d # rest))"

section \<open>The product \<^verbatim>\<open>Math.random() * valid.length\<close>\<close>

text \<open>
  \<^verbatim>\<open>Math.random()\<close> returns a double \<open>d\<close> with \<open>0 \<le> d < 1\<close>. Every such double is
  \<open>mant / 2 ^ shift\<close> for natural numbers \<open>mant < 2 ^ 53\<close> and \<open>53 \<le> shift \<le> 1074\<close>
  (a normal double from \<open>1 / 2 ^ k\<close> up to twice that, for \<open>k\<close> from 1 to 1022, has
  \<open>shift = k + 52\<close> and \<open>2 ^ 52 \<le> mant\<close>; a subnormal double has \<open>shift = 1074\<close>), and
  every such quotient is such a double.
\<close>

datatype unit_double = UnitDouble (mant: nat) (shift: nat)

definition is_unit_double :: "unit_double \<Rightarrow> bool" where
  "is_unit_double d \<longleftrightarrow> mant d < 2 ^ 53 \<and> 53 \<le> shift d \<and> shift d \<le> 1074"

text \<open>
  The length \<open>n\<close> of an array is a double as it is. The product of the two doubles is
  the exact product \<open>mant * n / 2 ^ shift\<close> rounded to the nearest double, a tie going to
  the double with the even significand. With \<open>m = mant * n\<close>: when \<open>m < 2 ^ 53\<close> the exact
  product is a double. Otherwise \<open>2 ^ (52 + s) \<le> m < 2 ^ (53 + s)\<close> for
  \<open>s = norm_shift m\<close>, the doubles near the product are the multiples of
  \<open>2 ^ s / 2 ^ shift\<close>, and \<open>m\<close> is rounded to a multiple of \<open>2 ^ s\<close>. The product is below
  \<open>n\<close>, so it does not overflow; and since \<open>shift \<le> 1074\<close> these multiples are doubles, so
  the fixed spacing of the subnormal doubles plays no part.
\<close>

function norm_shift :: "nat \<Rightarrow> nat" where
  "norm_shift m = (if m < 2 ^ 53 then 0 else Suc (norm_shift (m div 2)))"
  by pat_completeness auto
termination
  by (relation "measure (\<lambda>m. m)") auto

definition round_half_even :: "nat \<Rightarrow> nat \<Rightarrow> nat" where
  "round_half_even m s =
     (let q = m div 2 ^ s; r = m mod 2 ^ s; half = 2 ^ (s - 1)
      in if r < half then q
         else if half < r then q + 1
         else if even q then q else q + 1)"

definition round_product :: "nat \<Rightarrow> nat" where
  "round_product m =
     (let s = norm_shift m in if s = 0 then m else round_half_even m s * 2 ^ s)"

text \<open>\<^verbatim>\<open>Math.floor(d * n)\<close>: the floor is exact.\<close>

definition floor_product :: "unit_double \<Rightarrow> nat \<Rightarrow> nat" where
  "floor_product d n = round_product (mant d * n) div 2 ^ shift d"

section \<open>Constants of the program\<close>

definition GITHUB_SOURCES :: "jsstring list" where
  "GITHUB_SOURCES =
     [js ''https://raw.githubusercontent.com/TheSpeedX/PROXY-List/master/http.txt'',
      js ''https://raw.githubusercontent.com/Zaeem20/FREE_PROXIES_LIST/master/http.txt'']"

definition TEST_URL :: jsstring where
  "TEST_URL = js ''https://httpbin.org/ip''"

definition ENV_KEY :: jsstring where
  "ENV_KEY = js ''PROXY_SERVER''"

text \<open>The text \<^verbatim>\<open>`${ENV_KEY}=`\<close>.\<close>

definition key_prefix :: jsstring where
  "key_prefix = ENV_KEY @ [EQ]"

section \<open>The environment and the state\<close>

text \<open>
  The two files of the store are the file \<^verbatim>\<open>.env\<close> of the working directory and
  \<^verbatim>\<open>output/valid_proxies.txt\<close>. A file is absent (\<open>None\<close>) or holds the string that
  was written to it; reading it gives \<open>utf8_text\<close> of that string. The state also
  records, in order, every HTTP request issued and every file written. Writes to files
  are taken to succeed; console output is not modelled.
\<close>

datatype agent = HttpProxyAgent jsstring | HttpsProxyAgent jsstring

datatype request = Request (url: jsstring) (timeout_ms: nat) (via: "agent option")

datatype store_file = EnvFile | OutputFile

datatype effect = HttpGet request | WriteFile store_file jsstring

record state =
  env_file :: "jsstring option"
  output_file :: "jsstring option"
  effects :: "effect list"

text \<open>The body of a response is a string or some other value, of which only the
  truthiness matters.\<close>

datatype js_value = JsString jsstring | JsOther bool

fun truthy :: "js_value \<Rightarrow> bool" where
  "truthy (JsString s) \<longleftrightarrow> s \<noteq> []"
| "truthy (JsOther b) \<longleftrightarrow> b"

record response =
  status :: nat
  data :: js_value

datatype error = AxiosError | AgentError | TypeError

text \<open>
  What the program cannot decide is a parameter: the result of each
  \<^verbatim>\<open>axios.get\<close> (it may differ from one moment to the next, so it depends on the number
  of effects so far; a timeout, a refused connection and a rejected status are the
  error \<open>AxiosError\<close>), whether the constructor of a proxy agent throws, and the double
  \<^verbatim>\<open>Math.random()\<close> returns.
\<close>

record world =
  axios_get :: "nat \<Rightarrow> request \<Rightarrow> error + response"
  agent_throws :: "agent \<Rightarrow> bool"
  math_random :: unit_double

definition now :: "state \<Rightarrow> nat" where
  "now st = length (effects st)"

definition log_effect :: "effect \<Rightarrow> state \<Rightarrow> state" where
  "log_effect e st = st\<lparr>effects := effects st @ [e]\<rparr>"

section \<open>The store\<close>

text \<open>The lines read from a file; an absent file has none.\<close>

definition file_lines :: "jsstring option \<Rightarrow> jsstring list" where
  "file_lines f =
     (case f of None \<Rightarrow> [] | Some content \<Rightarrow> split_char NL (utf8_text content))"

fun scan_env_lines :: "jsstring list \<Rightarrow> jsstring option" where
  "scan_env_lines [] = None"
| "scan_env_lines (line # rest) =
     (let line' = trim line in
      if startsWith line' key_prefix
      then (case split_char EQ line' of _ # v # _ \<Rightarrow> Some v | _ \<Rightarrow> None)
      else scan_env_lines rest)"

definition getCurrentProxyFromEnv :: "state \<Rightarrow> jsstring option" where
  "getCurrentProxyFromEnv st =
     (case env_file st of
        None \<Rightarrow> None
      | Some content \<Rightarrow> scan_env_lines (split_char NL (utf8_text content)))"

definition setEnvProxy :: "jsstring option \<Rightarrow> state \<Rightarrow> state" where
  "setEnvProxy proxyUrl st =
     (let envLines = (case env_file st of
                        None \<Rightarrow> []
                      | Some content \<Rightarrow> split_char NL (utf8_text content));
          envLines = filter (\<lambda>line. \<not> startsWith line key_prefix) envLines;
          envLines = envLines @ [key_prefix @ template proxyUrl];
          content = join [NL] envLines
      in log_effect (WriteFile EnvFile content) (st\<lparr>env_file := Some content\<rparr>))"

section \<open>Validation of one proxy\<close>

definition proxy_agent :: "jsstring \<Rightarrow> agent" where
  "proxy_agent proxyUrl =
     (let protocol = split_first (js ''://'') proxyUrl
      in if protocol = js ''https'' then HttpsProxyAgent proxyUrl
         else HttpProxyAgent proxyUrl)"

definition validation_request :: "jsstring \<Rightarrow> request" where
  "validation_request proxyUrl = Request TEST_URL 5000 (Some (proxy_agent proxyUrl))"

text \<open>The \<^verbatim>\<open>try\<close> block of \<^verbatim>\<open>validateSingleProxy\<close>: \<open>Inl\<close> is an exception thrown
  inside it, by the constructor of the agent or by \<^verbatim>\<open>axios.get\<close>.\<close>

definition validate_try :: "world \<Rightarrow> state \<Rightarrow> jsstring \<Rightarrow> (error + bool) \<times> state" where
  "validate_try w st proxyUrl =
     (if agent_throws w (proxy_agent proxyUrl) then (Inl AgentError, st)
      else (let req = validation_request proxyUrl;
                st' = log_effect (HttpGet req) st
            in case axios_get w (now st) req of
                 Inl e \<Rightarrow> (Inl e, st')
               | Inr resp \<Rightarrow> (Inr (status resp = 200), st')))"

text \<open>The \<^verbatim>\<open>catch\<close> turns every exception into \<^verbatim>\<open>false\<close>.\<close>

definition validateSingleProxy :: "world \<Rightarrow> state \<Rightarrow> jsstring \<Rightarrow> bool \<times> state" where
  "validateSingleProxy w st proxyUrl =
     (case validate_try w st proxyUrl of
        (Inl e, st') \<Rightarrow> (False, st')
      | (Inr isOk, st') \<Rightarrow> (isOk, st'))"

section \<open>Fetching the candidates\<close>

text \<open>The body of the loop over the lines of one source: a line without \<^verbatim>\<open>://\<close> is
  added with \<^verbatim>\<open>http://\<close> before it, any other line as it is.\<close>

definition add_line :: "jsstring list \<Rightarrow> jsstring \<Rightarrow> jsstring list" where
  "add_line allProxies line =
     (if \<not> includes_str line (js ''://'') then set_add allProxies (js ''http://'' @ line)
      else set_add allProxies line)"

text \<open>The string that \<open>add_line\<close> adds for a line.\<close>

definition added_for :: "jsstring \<Rightarrow> jsstring" where
  "added_for line = (if \<not> includes_str line (js ''://'') then js ''http://'' @ line else line)"

text \<open>\<^verbatim>\<open>resp.data.split('\\n').map(l => l.trim()).filter(Boolean)\<close>.\<close>

definition data_lines :: "jsstring \<Rightarrow> jsstring list" where
  "data_lines s = filter (\<lambda>l. l \<noteq> []) (map trim (split_char NL s))"

definition source_request :: "jsstring \<Rightarrow> request" where
  "source_request src = Request src 15000 None"

text \<open>The \<^verbatim>\<open>try\<close> block for one source. A body that is truthy and not a string has
  no method \<^verbatim>\<open>split\<close>: the call throws before any line is added.\<close>

definition fetch_try ::
  "world \<Rightarrow> state \<Rightarrow> jsstring list \<Rightarrow> jsstring \<Rightarrow> (error + jsstring list) \<times> state" where
  "fetch_try w st allProxies src =
     (let req = source_request src;
          st' = log_effect (HttpGet req) st
      in case axios_get w (now st) req of
           Inl e \<Rightarrow> (Inl e, st')
         | Inr resp \<Rightarrow>
             if status resp = 200 \<and> truthy (data resp)
             then (case data resp of
                     JsString s \<Rightarrow> (Inr (foldl add_line allProxies (data_lines s)), st')
                   | JsOther b \<Rightarrow> (Inl TypeError, st'))
             else (Inr allProxies, st'))"

fun fetch_loop ::
  "world \<Rightarrow> jsstring list \<Rightarrow> jsstring list \<Rightarrow> state \<Rightarrow> jsstring list \<times> state" where
  "fetch_loop w [] allProxies st = (allProxies, st)"
| "fetch_loop w (src # srcs) allProxies st =
     (case fetch_try w st allProxies src of
        (Inl e, st') \<Rightarrow> fetch_loop w srcs allProxies st'
      | (Inr allProxies', st') \<Rightarrow> fetch_loop w srcs allProxies' st')"

definition fetchGitHubProxies :: "world \<Rightarrow> state \<Rightarrow> jsstring list \<times> state" where
  "fetchGitHubProxies w st = fetch_loop w GITHUB_SOURCES [] st"

section \<open>Validating the candidates\<close>

fun validate_loop ::
  "world \<Rightarrow> jsstring list \<Rightarrow> jsstring list \<Rightarrow> state \<Rightarrow> jsstring list \<times> state" where
  "validate_loop w [] valid st = (valid, st)"
| "validate_loop w (proxy # rest) valid st =
     (if length valid \<ge> 100 then (valid, st)
      else (case validateSingleProxy w st proxy of
              (isOk, st') \<Rightarrow>
                if isOk then validate_loop w rest (valid @ [proxy]) st'
                else validate_loop w rest valid st'))"

definition validateProxies :: "world \<Rightarrow> state \<Rightarrow> jsstring list \<Rightarrow> jsstring list \<times> state" where
  "validateProxies w st proxyList = validate_loop w proxyList [] st"

section \<open>The refresh cycle and the check cycle\<close>

definition scrapeValidateAndInject :: "world \<Rightarrow> state \<Rightarrow> bool \<times> state" where
  "scrapeValidateAndInject w st =
     (case fetchGitHubProxies w st of
        (allProxies, st1) \<Rightarrow>
          if allProxies = [] then (False, st1)
          else (case validateProxies w st1 allProxies of
                  (valid, st2) \<Rightarrow>
                    if valid = [] then (False, st2)
                    else (let content = join [NL] valid;
                              st3 = log_effect (WriteFile OutputFile content)
                                      (st2\<lparr>output_file := Some content\<rparr>);
                              chosen = js_index valid
                                         (int (floor_product (math_random w) (length valid)))
                          in (True, setEnvProxy chosen st3))))"

text \<open>\<^verbatim>\<open>!currentProxy\<close> holds of \<^verbatim>\<open>null\<close> and of the empty string.\<close>

definition checkCurrentProxy :: "world \<Rightarrow> state \<Rightarrow> state" where
  "checkCurrentProxy w st =
     (case getCurrentProxyFromEnv st of
        None \<Rightarrow> snd (scrapeValidateAndInject w st)
      | Some currentProxy \<Rightarrow>
          if currentProxy = [] then snd (scrapeValidateAndInject w st)
          else (case validateSingleProxy w st currentProxy of
                  (stillGood, st') \<Rightarrow>
                    if \<not> stillGood then snd (scrapeValidateAndInject w st')
                    else st'))"

section \<open>The scheduler\<close>

text \<open>
  \<^verbatim>\<open>main\<close> awaits one call of \<^verbatim>\<open>checkCurrentProxy\<close> and then arms a timer with
  \<^verbatim>\<open>setInterval\<close>, whose callback calls \<^verbatim>\<open>checkCurrentProxy\<close> again. A call of
  \<^verbatim>\<open>checkCurrentProxy\<close> is suspended at each of its requests, and the timer may fire
  meanwhile. The state of the scheduler is whether the timer is armed and how many
  calls of \<^verbatim>\<open>checkCurrentProxy\<close> have started and not yet returned; its events are a
  tick of the timer and the return of one running call.
\<close>

record sched =
  interval_armed :: bool
  active_cycles :: nat

datatype sched_event = TimerTick | CycleCompletes

text \<open>After \<^verbatim>\<open>main\<close> has called \<^verbatim>\<open>checkCurrentProxy\<close> for the first time.\<close>

definition main_start :: sched where
  "main_start = \<lparr>interval_armed = False, active_cycles = 1\<rparr>"

text \<open>The callback of the timer calls \<^verbatim>\<open>checkCurrentProxy\<close> whatever is running. The
  return of the first call lets \<^verbatim>\<open>main\<close> go on to \<^verbatim>\<open>setInterval\<close>.\<close>

fun sched_step :: "sched \<Rightarrow> sched_event \<Rightarrow> sched" where
  "sched_step s TimerTick =
     (if interval_armed s then s\<lparr>active_cycles := active_cycles s + 1\<rparr> else s)"
| "sched_step s CycleCompletes =
     (if active_cycles s = 0 then s
      else if interval_armed s then s\<lparr>active_cycles := active_cycles s - 1\<rparr>
      else s\<lparr>interval_armed := True, active_cycles := active_cycles s - 1\<rparr>)"

definition sched_run :: "sched \<Rightarrow> sched_event list \<Rightarrow> sched" where
  "sched_run s evs = foldl sched_step s evs"

section \<open>Notions of the specification\<close>

text \<open>
  The specification speaks of the candidate lines a source yields, of a source that
  fails, of a line that carries a scheme and of a write to the store. These
  definitions follow its words; the theorems compare them with the program.

  The outcome of the request to source \<open>i\<close> (0 or 1) in a fetch that starts in state
  \<open>st\<close>: the fetch issues its requests one after the other.
\<close>

definition source_outcome :: "world \<Rightarrow> state \<Rightarrow> nat \<Rightarrow> error + response" where
  "source_outcome w st i = axios_get w (now st + i) (source_request (GITHUB_SOURCES ! i))"

text \<open>A source fails entirely on a network error, a timeout or a status other than
  200.\<close>

definition source_fails :: "error + response \<Rightarrow> bool" where
  "source_fails out = (case out of Inl e \<Rightarrow> True | Inr resp \<Rightarrow> status resp \<noteq> 200)"

text \<open>The candidate lines of a source: the non-empty trimmed lines of the text of a
  response with status 200, and none otherwise.\<close>

definition source_yield :: "error + response \<Rightarrow> jsstring list" where
  "source_yield out =
     (case out of
        Inl e \<Rightarrow> []
      | Inr resp \<Rightarrow>
          if status resp = 200
          then (case data resp of JsString s \<Rightarrow> data_lines s | JsOther b \<Rightarrow> [])
          else [])"




fun is_write :: "effect \<Rightarrow> bool" where
  "is_write (WriteFile f content) = True"
| "is_write (HttpGet req) = False"

text \<open>Two states have the same store when both files are equal and the same writes
  have been made.\<close>

definition same_store :: "state \<Rightarrow> state \<Rightarrow> bool" where
  "same_store st st' \<longleftrightarrow>
     env_file st' = env_file st \<and> output_file st' = output_file st \<and>
     filter is_write (effects st') = filter is_write (effects st)"

section \<open>Concrete inputs\<close>

text \<open>A store with no file, a store whose \<^verbatim>\<open>.env\<close> has three lines, and a store
  whose \<^verbatim>\<open>.env\<close> holds an active proxy.\<close>

definition st_absent :: state where
  "st_absent = \<lparr>env_file = None, output_file = None, effects = []\<rparr>"

definition st_env :: state where
  "st_env = \<lparr>env_file = Some (js ''A=1\<newline>PROXY_SERVER=old\<newline>B=2''), output_file = None,
              effects = []\<rparr>"

definition st_active :: state where
  "st_active = \<lparr>env_file = Some (js ''PROXY_SERVER=http://1.1.1.1:80''), output_file = None,
                 effects = []\<rparr>"

text \<open>A store whose \<^verbatim>\<open>.env\<close> holds an indented entry.\<close>

definition st_stale :: state where
  "st_stale = \<lparr>env_file = Some (js '' PROXY_SERVER=http://old:1''), output_file = None,
                effects = []\<rparr>"

text \<open>
  A world in which the first source lists two proxies and the second source two, one
  of them again the first proxy of the first source with spaces around it; the test
  URL answers 200 through three proxies and cannot be reached through any other.
\<close>

fun agent_proxy :: "agent \<Rightarrow> jsstring" where
  "agent_proxy (HttpProxyAgent p) = p"
| "agent_proxy (HttpsProxyAgent p) = p"

definition scenario_good :: "jsstring \<Rightarrow> bool" where
  "scenario_good p \<longleftrightarrow>
     p = js ''http://1.2.3.4:8080'' \<or> p = js ''https://9.9.9.9:443'' \<or>
     p = js ''http://1.1.1.1:80''"

definition scenario_get :: "nat \<Rightarrow> request \<Rightarrow> error + response" where
  "scenario_get n req =
     (case via req of
        None \<Rightarrow>
          if url req = GITHUB_SOURCES ! 0
          then Inr \<lparr>status = 200,
                    data = JsString (js ''1.2.3.4:8080\<newline>5.6.7.8:3128\<newline>'')\<rparr>
          else if url req = GITHUB_SOURCES ! 1
          then Inr \<lparr>status = 200,
                    data = JsString (js ''https://9.9.9.9:443\<newline> 1.2.3.4:8080 '')\<rparr>
          else Inl AxiosError
      | Some a \<Rightarrow>
          if scenario_good (agent_proxy a) then Inr \<lparr>status = 200, data = JsOther True\<rparr>
          else Inl AxiosError)"

definition scenario_world :: world where
  "scenario_world =
     \<lparr>axios_get = scenario_get, agent_throws = (\<lambda>a. False), math_random = UnitDouble (2 ^ 52) 53\<rparr>"

text \<open>A world in which every request fails, and a world in which only the second
  source answers and no proxy works.\<close>

definition dead_get :: "nat \<Rightarrow> request \<Rightarrow> error + response" where
  "dead_get n req = Inl AxiosError"

definition dead_world :: world where
  "dead_world = \<lparr>axios_get = dead_get, agent_throws = (\<lambda>a. False), math_random = UnitDouble 0 53\<rparr>"

definition half_get :: "nat \<Rightarrow> request \<Rightarrow> error + response" where
  "half_get n req =
     (if url req = GITHUB_SOURCES ! 1 \<and> via req = None
      then Inr \<lparr>status = 200, data = JsString (js ''https://9.9.9.9:443'')\<rparr>
      else Inl AxiosError)"



definition half_world :: world where
  "half_world = \<lparr>axios_get = half_get, agent_throws = (\<lambda>a. False), math_random = UnitDouble 0 53\<rparr>"

section \<open>Lemmas on strings\<close>

lemma split_char_nonempty: "split_char c s \<noteq> []"
  by (induction s) (auto split: list.splits)

lemma split_char_no_sep: "l \<in> set (split_char c s) \<Longrightarrow> c \<notin> set l"
  by (induction s arbitrary: l) (auto split: list.splits if_splits)

lemma split_char_none: "c \<notin> set s \<Longrightarrow> split_char c s = [s]"
  by (induction s) auto

lemma split_char_append: "c \<notin> set a \<Longrightarrow> split_char c (a @ c # b) = a # split_char c b"
  by (induction a) auto

lemma split_char_join:
  "ls \<noteq> [] \<Longrightarrow> \<forall>l\<in>set ls. c \<notin> set l \<Longrightarrow> split_char c (join [c] ls) = ls"
proof (induction ls)
  case Nil
  then show ?case by simp
next
  case (Cons l ls)
  show ?case
  proof (cases ls)
    case Nil
    with Cons.prems show ?thesis by (simp add: split_char_none)
  next
    case (Cons m ms)
    with Cons.IH Cons.prems show ?thesis by (simp add: split_char_append)
  qed
qed

section \<open>Lemmas on text in files\<close>

lemma plain_NL: "plain NL"
  by (simp add: plain_def NL_def is_high_surrogate_def is_low_surrogate_def)

lemma lone_plain: "plain c \<Longrightarrow> lone c = c"
  by (simp add: lone_def plain_def)

lemma plain_lone: "plain (lone c)"
  by (simp add: lone_def plain_def is_high_surrogate_def is_low_surrogate_def)

lemma utf8_text_Cons_plain: "plain c \<Longrightarrow> utf8_text (c # s) = c # utf8_text s"
  by (cases s) (simp_all add: lone_plain plain_def)

lemma utf8_text_sep:
  "plain c \<Longrightarrow> utf8_text (a @ c # b) = utf8_text a @ c # utf8_text b"
proof (induction a rule: utf8_text.induct)
  case 1
  then show ?case by (simp add: utf8_text_Cons_plain)
next
  case (2 x)
  then show ?case by (simp add: utf8_text_Cons_plain plain_def)
next
  case (3 x y rest)
  then show ?case by simp
qed

lemma utf8_text_plain_prefix:
  "\<forall>c\<in>set a. plain c \<Longrightarrow> utf8_text (a @ b) = a @ utf8_text b"
  by (induction a) (simp_all add: utf8_text_Cons_plain)

lemma set_utf8_text: "set (utf8_text s) \<subseteq> insert 0xFFFD (set s)"
  by (induction s rule: utf8_text.induct) (auto simp: lone_def)

lemma utf8_text_no_NL: "NL \<notin> set s \<Longrightarrow> NL \<notin> set (utf8_text s)"
  using set_utf8_text [of s] by (auto simp: NL_def)

lemma utf8_text_idem: "utf8_text (utf8_text s) = utf8_text s"
proof (induction s rule: utf8_text.induct)
  case 1
  show ?case by simp
next
  case (2 c)
  show ?case using plain_lone [of c] by (simp add: lone_plain)
next
  case (3 c d rest)
  show ?case
  proof (cases "is_high_surrogate c \<and> is_low_surrogate d")
    case True
    with 3 show ?thesis by simp
  next
    case False
    then have e: "utf8_text (c # d # rest) = lone c # utf8_text (d # rest)" by auto
    have "utf8_text (lone c # utf8_text (d # rest)) = lone c # utf8_text (utf8_text (d # rest))"
      using plain_lone [of c] by (rule utf8_text_Cons_plain)
    with e 3(2) [OF False] show ?thesis by simp
  qed
qed

lemma split_utf8_text: "split_char NL (utf8_text s) = map utf8_text (split_char NL s)"
proof (induction s rule: length_induct)
  case (1 s)
  show ?case
  proof (cases "NL \<in> set s")
    case False
    then show ?thesis by (simp add: split_char_none utf8_text_no_NL)
  next
    case True
    then obtain a b where s: "s = a @ NL # b" and a: "NL \<notin> set a"
      by (auto dest: split_list_first)
    then have "length b < length s" by simp
    with 1 have "split_char NL (utf8_text b) = map utf8_text (split_char NL b)" by blast
    with s a show ?thesis
      by (simp add: utf8_text_sep plain_NL split_char_append utf8_text_no_NL)
  qed
qed

lemma utf8_text_join: "utf8_text (join [NL] ls) = join [NL] (map utf8_text ls)"
proof (induction ls)
  case Nil
  show ?case by simp
next
  case (Cons l ls)
  then show ?case by (cases ls) (simp_all add: utf8_text_sep plain_NL)
qed

section \<open>Lemmas on the product\<close>

declare norm_shift.simps [simp del]

lemma norm_shift_0: "m < 2 ^ 53 \<Longrightarrow> norm_shift m = 0"
  by (simp add: norm_shift.simps)

lemma norm_shift_lower: "0 < norm_shift m \<Longrightarrow> 2 ^ (52 + norm_shift m) \<le> m"
proof (induction m rule: norm_shift.induct)
  case (1 m)
  show ?case
  proof (cases "m < 2 ^ 53")
    case True
    with "1.prems" show ?thesis by (simp add: norm_shift.simps)
  next
    case False
    then have s: "norm_shift m = Suc (norm_shift (m div 2))"
      by (subst norm_shift.simps) simp
    show ?thesis
    proof (cases "norm_shift (m div 2) = 0")
      case True
      with s False show ?thesis by simp
    next
      case False2: False
      with "1.IH" [OF False] have "2 ^ (52 + norm_shift (m div 2)) \<le> m div 2" by simp
      then have "2 * 2 ^ (52 + norm_shift (m div 2)) \<le> 2 * (m div 2)" by simp
      also have "\<dots> \<le> m" by simp
      finally have "2 * 2 ^ (52 + norm_shift (m div 2)) \<le> m" .
      then show ?thesis using s by (simp only: add_Suc_right power_Suc)
    qed
  qed
qed

lemma round_half_even_upper:
  assumes "0 < s"
  shows "round_half_even m s * 2 ^ s \<le> m + 2 ^ (s - 1)"
proof -
  let ?q = "m div 2 ^ s" and ?r = "m mod 2 ^ s" and ?h = "(2::nat) ^ (s - 1)"
  have two: "(2::nat) ^ s = 2 * ?h"
    using assms by (cases s) simp_all
  have m: "m = ?q * 2 ^ s + ?r" by (rule div_mult_mod_eq [symmetric])
  show ?thesis
  proof (cases "round_half_even m s = ?q")
    case True
    then have "round_half_even m s * 2 ^ s = ?q * 2 ^ s" by simp
    also have "\<dots> \<le> m" by simp
    finally show ?thesis by simp
  next
    case False
    then have up: "round_half_even m s = ?q + 1" and r: "?h \<le> ?r"
      by (auto simp: round_half_even_def Let_def split: if_splits)
    have "round_half_even m s * 2 ^ s = ?q * 2 ^ s + 2 ^ s"
      using up by (simp add: algebra_simps)
    also have "\<dots> = ?q * 2 ^ s + ?h + ?h" using two by simp
    also have "\<dots> \<le> ?q * 2 ^ s + ?r + ?h" using r by simp
    also have "\<dots> = m + ?h" using m by simp
    finally show ?thesis .
  qed
qed

lemma round_product_less:
  assumes "a < 2 ^ 53" and "0 < n"
  shows "round_product (a * n) < n * 2 ^ 53"
proof -
  let ?m = "a * n" and ?s = "norm_shift (a * n)"
  from assms have le: "?m + n \<le> n * 2 ^ 53"
  proof -
    from assms(1) have "a + 1 \<le> 2 ^ 53" by simp
    then have "(a + 1) * n \<le> 2 ^ 53 * n" by (rule mult_le_mono1)
    then show ?thesis by (simp add: algebra_simps)
  qed
  show ?thesis
  proof (cases "?s = 0")
    case True
    then have "round_product ?m = ?m" by (simp add: round_product_def)
    with le assms(2) show ?thesis by simp
  next
    case False
    then have pos: "0 < ?s" by simp
    have low: "2 ^ (52 + ?s) \<le> ?m" using pos by (rule norm_shift_lower)
    from pos obtain k where k: "?s = Suc k" by (cases ?s) auto
    have "52 + Suc k = k + 53" by simp
    then have "(2::nat) ^ (52 + Suc k) = 2 ^ k * 2 ^ 53"
      by (simp only: power_add)
    then have "(2::nat) ^ (52 + ?s) = 2 ^ (?s - 1) * 2 ^ 53"
      by (simp only: k diff_Suc_1)
    with low le have "2 ^ (?s - 1) * (2::nat) ^ 53 < n * 2 ^ 53"
      using assms(2) by linarith
    then have half: "2 ^ (?s - 1) < n" by simp
    have "round_product ?m = round_half_even ?m ?s * 2 ^ ?s"
      using False by (simp add: round_product_def Let_def)
    also have "\<dots> \<le> ?m + 2 ^ (?s - 1)" using pos by (rule round_half_even_upper)
    also have "\<dots> < ?m + n" using half by simp
    also have "\<dots> \<le> n * 2 ^ 53" by (rule le)
    finally show ?thesis .
  qed
qed

lemma floor_product_less:
  assumes "is_unit_double d" and "0 < n"
  shows "floor_product d n < n"
proof -
  from assms(1) have a: "mant d < 2 ^ 53" and sh: "53 \<le> shift d"
    by (simp_all add: is_unit_double_def)
  have "round_product (mant d * n) < n * 2 ^ 53"
    using a assms(2) by (rule round_product_less)
  also have "\<dots> \<le> n * 2 ^ shift d"
  proof (rule mult_le_mono2)
    show "(2::nat) ^ 53 \<le> 2 ^ shift d"
      using sh by (rule power_increasing) simp
  qed
  finally have "round_product (mant d * n) < n * 2 ^ shift d" .
  then show ?thesis
    by (simp add: floor_product_def less_mult_imp_div_less)
qed

text \<open>
  The double nearest to 0.74 is \<open>6665327448508334 / 2 ^ 53\<close>. Its exact product with 100
  is below 74, with floor 73; the product of the doubles is 74.
\<close>

lemma floor_product_example: "floor_product (UnitDouble 6665327448508334 53) 100 = 74"
  by (simp add: floor_product_def round_product_def round_half_even_def norm_shift.simps)

lemma exact_product_example: "6665327448508334 * 100 div 2 ^ 53 = (73::nat)"
  by simp

section \<open>Lemmas on the store\<close>

lemmas eval_defs = js_def NL_def EQ_def key_prefix_def ENV_KEY_def startsWith_def
  file_lines_def setEnvProxy_def log_effect_def template_def getCurrentProxyFromEnv_def
  trim_def is_space_def Let_def lone_def is_high_surrogate_def is_low_surrogate_def

lemmas run_defs = scrapeValidateAndInject_def fetchGitHubProxies_def fetch_try_def validateProxies_def
  validateSingleProxy_def validate_try_def validation_request_def proxy_agent_def source_request_def
  data_lines_def add_line_def set_add_def js_index_def now_def GITHUB_SOURCES_def TEST_URL_def
  scenario_world_def scenario_get_def scenario_good_def st_env_def st_absent_def
  floor_product_def round_product_def round_half_even_def norm_shift.simps

lemma key_prefix_no_NL: "NL \<notin> set key_prefix"
  by (simp add: key_prefix_def ENV_KEY_def js_def NL_def EQ_def)

lemma key_prefix_plain: "\<forall>c\<in>set key_prefix. plain c"
  by (simp add: key_prefix_def ENV_KEY_def js_def EQ_def plain_def is_high_surrogate_def
      is_low_surrogate_def)

lemma file_line_fixed: "l \<in> set (file_lines f) \<Longrightarrow> utf8_text l = l"
  by (auto simp: file_lines_def split_utf8_text utf8_text_idem split: option.splits)

lemma file_line_no_NL: "l \<in> set (file_lines f) \<Longrightarrow> NL \<notin> set l"
  by (auto simp: file_lines_def split_char_no_sep split: option.splits)

lemma file_lines_setEnvProxy:
  assumes "NL \<notin> set (template proxyUrl)"
  shows "file_lines (env_file (setEnvProxy proxyUrl st)) =
           filter (\<lambda>line. \<not> startsWith line key_prefix) (file_lines (env_file st))
           @ [key_prefix @ utf8_text (template proxyUrl)]"
proof -
  let ?kept = "filter (\<lambda>line. \<not> startsWith line key_prefix) (file_lines (env_file st))"
  let ?written = "?kept @ [key_prefix @ template proxyUrl]"
  let ?new = "?kept @ [key_prefix @ utf8_text (template proxyUrl)]"
  have w: "env_file (setEnvProxy proxyUrl st) = Some (join [NL] ?written)"
    by (simp add: setEnvProxy_def Let_def log_effect_def file_lines_def)
  have "map utf8_text ?kept = ?kept"
    by (rule map_idI) (auto dest: file_line_fixed)
  then have m: "map utf8_text ?written = ?new"
    by (simp add: utf8_text_plain_prefix key_prefix_plain)
  have "\<forall>l\<in>set ?new. NL \<notin> set l"
    using assms key_prefix_no_NL by (auto dest: file_line_no_NL simp: utf8_text_no_NL)
  then have "split_char NL (join [NL] ?new) = ?new"
    by (intro split_char_join) simp_all
  with w m show ?thesis
    by (simp add: file_lines_def utf8_text_join)
qed

section \<open>Lemmas on the validation\<close>

lemma validateSingleProxy_fst:
  "fst (validateSingleProxy w st p) \<longleftrightarrow>
     \<not> agent_throws w (proxy_agent p) \<and>
     (\<exists>resp. axios_get w (now st) (validation_request p) = Inr resp \<and> status resp = 200)"
  by (auto simp: validateSingleProxy_def validate_try_def Let_def split: sum.splits)

lemma validateSingleProxy_snd:
  "snd (validateSingleProxy w st p) =
     (if agent_throws w (proxy_agent p) then st
      else log_effect (HttpGet (validation_request p)) st)"
  by (auto simp: validateSingleProxy_def validate_try_def Let_def split: sum.splits)

lemma scenario_fixed: "fst (validateSingleProxy scenario_world st p) = scenario_good p"
  by (simp add: validateSingleProxy_fst scenario_world_def scenario_get_def
      validation_request_def proxy_agent_def Let_def)

lemma validate_loop_fixed:
  assumes "\<And>st p. fst (validateSingleProxy w st p) = ok p"
  shows "fst (validate_loop w xs valid st) = valid @ take (100 - length valid) (filter ok xs)"
proof (induction xs arbitrary: valid st)
  case Nil
  show ?case by simp
next
  case (Cons p rest)
  show ?case
  proof (cases "length valid \<ge> 100")
    case True
    then show ?thesis by simp
  next
    case False
    obtain st' where v: "validateSingleProxy w st p = (ok p, st')"
      using assms [of st p] by (cases "validateSingleProxy w st p") auto
    from False have "100 - length valid = Suc (99 - length valid)" by simp
    with False v Cons.IH show ?thesis by simp
  qed
qed

lemma validate_loop_stops:
  assumes "\<And>st p. fst (validateSingleProxy w st p) = ok p"
  shows "100 \<le> length valid + length (filter ok xs) \<Longrightarrow>
         validate_loop w (xs @ ys) valid st = validate_loop w xs valid st"
proof (induction xs arbitrary: valid st)
  case Nil
  then show ?case by (cases ys) simp_all
next
  case (Cons p rest)
  show ?case
  proof (cases "length valid \<ge> 100")
    case True
    then show ?thesis by simp
  next
    case False
    obtain st' where v: "validateSingleProxy w st p = (ok p, st')"
      using assms [of st p] by (cases "validateSingleProxy w st p") auto
    with False Cons.IH [of "valid @ [p]" st'] Cons.IH [of valid st'] Cons.prems
    show ?thesis by (cases "ok p") simp_all
  qed
qed

lemma set_validate_loop: "set (fst (validate_loop w xs valid st)) \<subseteq> set valid \<union> set xs"
proof (induction xs arbitrary: valid st)
  case Nil
  show ?case by simp
next
  case (Cons p rest)
  show ?case
  proof (cases "length valid \<ge> 100")
    case True
    then show ?thesis by auto
  next
    case False
    obtain isOk st' where v: "validateSingleProxy w st p = (isOk, st')"
      by (cases "validateSingleProxy w st p")
    with False Cons.IH [of "valid @ [p]" st'] Cons.IH [of valid st'] show ?thesis
      by (cases isOk) auto
  qed
qed

lemma set_validateProxies: "set (fst (validateProxies w st xs)) \<subseteq> set xs"
  using set_validate_loop [of w xs "[]" st] by (simp add: validateProxies_def)

section \<open>Lemmas on the fetch\<close>

lemma add_line_added_for: "add_line allProxies line = set_add allProxies (added_for line)"
  by (simp add: add_line_def added_for_def)

lemma set_foldl_add_line:
  "set (foldl add_line allProxies ls) = set allProxies \<union> added_for ` set ls"
  by (induction ls arbitrary: allProxies) (auto simp: add_line_added_for set_add_def)


lemma trim_Nil: "trim [] = []"
  by (simp add: trim_def)

lemma data_lines_Nil: "data_lines [] = []"
  by (simp add: data_lines_def trim_Nil)

lemma fetch_try_yield:
  "fetch_try w st allProxies src = (r, st') \<Longrightarrow>
     st' = log_effect (HttpGet (source_request src)) st \<and>
     (case r of Inl e \<Rightarrow> allProxies | Inr allProxies' \<Rightarrow> allProxies') =
       foldl add_line allProxies (source_yield (axios_get w (now st) (source_request src)))"
  by (auto simp: fetch_try_def Let_def source_yield_def data_lines_Nil
      split: sum.splits if_splits js_value.splits)

lemma fetch_loop_Cons:
  "fetch_loop w (src # srcs) allProxies st =
     fetch_loop w srcs
       (foldl add_line allProxies (source_yield (axios_get w (now st) (source_request src))))
       (log_effect (HttpGet (source_request src)) st)"
proof (cases "fetch_try w st allProxies src")
  case (Pair r st')
  from fetch_try_yield [OF Pair] Pair show ?thesis
    by (cases r) auto
qed

lemma now_log_effect: "now (log_effect e st) = now st + 1"
  by (simp add: now_def log_effect_def)

lemma fetchGitHubProxies_eq:
  "fetchGitHubProxies w st =
     (foldl add_line (foldl add_line [] (source_yield (source_outcome w st 0)))
        (source_yield (source_outcome w st 1)),
      log_effect (HttpGet (source_request (GITHUB_SOURCES ! 1)))
        (log_effect (HttpGet (source_request (GITHUB_SOURCES ! 0))) st))"
  by (simp add: fetchGitHubProxies_def GITHUB_SOURCES_def fetch_loop_Cons source_outcome_def
      now_log_effect del: fetch_loop.simps(2))

lemma fetch_empty_iff:
  "fst (fetchGitHubProxies w st) = [] \<longleftrightarrow>
     source_yield (source_outcome w st 0) = [] \<and> source_yield (source_outcome w st 1) = []"
proof -
  have "fst (fetchGitHubProxies w st) = [] \<longleftrightarrow> set (fst (fetchGitHubProxies w st)) = {}"
    by simp
  also have "\<dots> \<longleftrightarrow>
     source_yield (source_outcome w st 0) = [] \<and> source_yield (source_outcome w st 1) = []"
    by (simp add: fetchGitHubProxies_eq set_foldl_add_line)
  finally show ?thesis .
qed

lemma set_trim: "set (trim s) \<subseteq> set s"
proof -
  have "set (dropWhile is_space (rev (dropWhile is_space s))) \<subseteq> set (rev (dropWhile is_space s))"
    by (meson set_dropWhileD subsetI)
  also have "\<dots> \<subseteq> set s"
    using set_dropWhileD [of _ is_space s] by auto
  finally show ?thesis by (simp add: trim_def)
qed

lemma data_lines_no_NL: "l \<in> set (data_lines s) \<Longrightarrow> NL \<notin> set l"
  using split_char_no_sep [of _ NL s] set_trim by (fastforce simp: data_lines_def)

lemma source_yield_no_NL:
  assumes "l \<in> set (source_yield out)"
  shows "NL \<notin> set l"
proof (cases out)
  case (Inl e)
  with assms show ?thesis by (simp add: source_yield_def)
next
  case (Inr resp)
  show ?thesis
  proof (cases "data resp")
    case (JsString s)
    with Inr assms have "l \<in> set (data_lines s)"
      by (cases "status resp = 200") (simp_all add: source_yield_def)
    then show ?thesis by (rule data_lines_no_NL)
  next
    case (JsOther b)
    with Inr have "source_yield out = []" by (simp add: source_yield_def)
    with assms show ?thesis by simp
  qed
qed

lemma added_for_no_NL: "NL \<notin> set l \<Longrightarrow> NL \<notin> set (added_for l)"
  by (simp add: added_for_def js_def NL_def)

lemma fetch_no_NL:
  assumes "p \<in> set (fst (fetchGitHubProxies w st))"
  shows "NL \<notin> set p"
proof -
  from assms obtain l where
    "p = added_for l"
    "l \<in> set (source_yield (source_outcome w st 0)) \<or> l \<in> set (source_yield (source_outcome w st 1))"
    by (auto simp: fetchGitHubProxies_eq set_foldl_add_line)
  then show ?thesis
    using source_yield_no_NL added_for_no_NL by blast
qed



lemma dead_fetch: "fst (fetchGitHubProxies dead_world st) = []"
  by (simp add: fetchGitHubProxies_eq source_outcome_def dead_world_def dead_get_def
      source_yield_def)


section \<open>Lemmas on the refresh cycle\<close>

lemma same_store_refl: "same_store st st"
  by (simp add: same_store_def)

lemma same_store_trans: "same_store a b \<Longrightarrow> same_store b c \<Longrightarrow> same_store a c"
  by (simp add: same_store_def)

lemma same_store_log_get: "same_store st (log_effect (HttpGet req) st)"
  by (simp add: same_store_def log_effect_def)

lemma same_store_validateSingleProxy: "same_store st (snd (validateSingleProxy w st p))"
  by (simp add: validateSingleProxy_snd same_store_refl same_store_log_get)

lemma same_store_validate_loop: "same_store st (snd (validate_loop w xs valid st))"
proof (induction xs arbitrary: valid st)
  case Nil
  show ?case by (simp add: same_store_refl)
next
  case (Cons p rest)
  show ?case
  proof (cases "length valid \<ge> 100")
    case True
    then show ?thesis by (simp add: same_store_refl)
  next
    case False
    obtain isOk st' where v: "validateSingleProxy w st p = (isOk, st')"
      by (cases "validateSingleProxy w st p")
    then have "same_store st st'"
      using same_store_validateSingleProxy [of st w p] by simp
    with False v Cons.IH [of st'] show ?thesis
      by (cases isOk) (auto intro: same_store_trans)
  qed
qed

lemma same_store_validateProxies: "same_store st (snd (validateProxies w st xs))"
  by (simp add: validateProxies_def same_store_validate_loop)

lemma same_store_fetch: "same_store st (snd (fetchGitHubProxies w st))"
  by (simp add: fetchGitHubProxies_eq same_store_def log_effect_def)

lemma random_index:
  assumes "is_unit_double d" and "xs \<noteq> []"
  shows "\<exists>x\<in>set xs. js_index xs (int (floor_product d (length xs))) = Some x"
proof -
  from assms have "floor_product d (length xs) < length xs"
    by (intro floor_product_less) simp_all
  then show ?thesis by (simp add: js_index_def)
qed

lemma output_file_setEnvProxy: "output_file (setEnvProxy v st) = output_file st"
  by (simp add: setEnvProxy_def Let_def log_effect_def)

lemma chosen_no_NL:
  assumes "\<forall>p\<in>set valid. NL \<notin> set p"
  shows "NL \<notin> set (template (js_index valid i))"
proof (cases "js_index valid i")
  case None
  then show ?thesis by (simp add: template_def js_def NL_def)
next
  case (Some c)
  then have "c \<in> set valid"
    by (auto simp: js_index_def split: if_splits)
  with assms Some show ?thesis by (simp add: template_def)
qed

lemma refresh_env_lines:
  assumes "fst (scrapeValidateAndInject w st)"
  shows "\<exists>entry. file_lines (env_file (snd (scrapeValidateAndInject w st))) =
           filter (\<lambda>l. \<not> startsWith l key_prefix) (file_lines (env_file st))
           @ [key_prefix @ entry]"
proof -
  obtain allProxies st1 where f: "fetchGitHubProxies w st = (allProxies, st1)"
    by (cases "fetchGitHubProxies w st")
  obtain valid st2 where v: "validateProxies w st1 allProxies = (valid, st2)"
    by (cases "validateProxies w st1 allProxies")
  from assms f v have ne: "allProxies \<noteq> []" "valid \<noteq> []"
    by (auto simp: scrapeValidateAndInject_def split: if_splits)
  let ?chosen = "js_index valid (int (floor_product (math_random w) (length valid)))"
  let ?st3 = "log_effect (WriteFile OutputFile (join [NL] valid))
                  (st2\<lparr>output_file := Some (join [NL] valid)\<rparr>)"
  have run: "snd (scrapeValidateAndInject w st) = setEnvProxy ?chosen ?st3"
    using f v ne by (simp add: scrapeValidateAndInject_def Let_def)
  have "set valid \<subseteq> set allProxies"
    using set_validateProxies [of w st1 allProxies] v by simp
  moreover have "\<forall>p\<in>set allProxies. NL \<notin> set p"
    using fetch_no_NL [of _ w st] f by simp
  ultimately have "\<forall>p\<in>set valid. NL \<notin> set p" by blast
  then have n: "NL \<notin> set (template ?chosen)" by (rule chosen_no_NL)
  have "same_store st st1"
    using same_store_fetch [of st w] f by simp
  moreover have "same_store st1 st2"
    using same_store_validateProxies [of st1 w allProxies] v by simp
  ultimately have "env_file ?st3 = env_file st"
    by (simp add: same_store_def log_effect_def)
  with file_lines_setEnvProxy [OF n, of ?st3] run show ?thesis by auto
qed

lemma sched_run_ticks:
  "interval_armed s \<Longrightarrow>
   sched_run s (replicate n TimerTick) = s\<lparr>active_cycles := active_cycles s + n\<rparr>"
proof (induction n arbitrary: s)
  case 0
  show ?case by (simp add: sched_run_def)
next
  case (Suc n)
  from Suc.prems have "interval_armed (sched_step s TimerTick)" by simp
  from Suc.IH [OF this] Suc.prems show ?case
    by (simp add: sched_run_def)
qed

lemma sched_run_unarmed_ticks:
  "\<not> interval_armed s \<Longrightarrow> sched_run s (replicate n TimerTick) = s"
  by (induction n) (simp_all add: sched_run_def)

lemma sched_run_snoc: "sched_run s (evs @ [e]) = sched_step (sched_run s evs) e"
  by (simp add: sched_run_def)

lemma first_cycle_alone:
  assumes "\<not> interval_armed s \<longrightarrow> active_cycles s = 1"
  shows "\<not> interval_armed (sched_run s evs) \<longrightarrow> active_cycles (sched_run s evs) = 1"
proof (induction evs rule: rev_induct)
  case Nil
  from assms show ?case by (simp add: sched_run_def)
next
  case (snoc e evs)
  then show ?case
    by (cases e) (auto simp: sched_run_snoc)
qed

section \<open>The refresh cycle\<close>

text \<open>
  Claim C1. Let \<open>valid\<close> be the list \<^verbatim>\<open>validateProxies\<close> returned in a refresh cycle
  that returns \<^verbatim>\<open>true\<close>, \<^verbatim>\<open>Math.random()\<close> having returned a double from 0 up to, not
  including, 1. Then the argument \<open>chosen\<close> of \<^verbatim>\<open>setEnvProxy\<close> in that cycle is an
  element of \<open>valid\<close>: the final state is the one \<^verbatim>\<open>setEnvProxy(chosen)\<close> leaves after
  \<open>valid\<close>, joined by newlines, has been written to the pool listing file; the lines of
  the text written to the pool listing file are \<open>valid\<close>; and the text written to
  \<^verbatim>\<open>.env\<close> ends with the line \<^verbatim>\<open>PROXY_SERVER=chosen\<close>.
\<close>

theorem refresh_installs_pool_member:
  assumes rnd: "is_unit_double (math_random w)"
    and f: "fetchGitHubProxies w st = (allProxies, st1)"
    and v: "validateProxies w st1 allProxies = (valid, st2)"
    and ok: "fst (scrapeValidateAndInject w st)"
  shows "\<exists>chosen\<in>set valid.
           snd (scrapeValidateAndInject w st) =
             setEnvProxy (Some chosen)
               (log_effect (WriteFile OutputFile (join [NL] valid))
                  (st2\<lparr>output_file := Some (join [NL] valid)\<rparr>))
           \<and> output_file (snd (scrapeValidateAndInject w st)) = Some (join [NL] valid)
           \<and> split_char NL (join [NL] valid) = valid
           \<and> env_file (snd (scrapeValidateAndInject w st)) =
               Some (join [NL] (filter (\<lambda>l. \<not> startsWith l key_prefix) (file_lines (env_file st))
                                @ [key_prefix @ chosen]))"
proof -
  from ok f v have ne: "allProxies \<noteq> []" "valid \<noteq> []"
    by (auto simp: scrapeValidateAndInject_def split: if_splits)
  from random_index [OF rnd ne(2)] obtain chosen where
    c: "chosen \<in> set valid"
       "js_index valid (int (floor_product (math_random w) (length valid))) = Some chosen"
    by blast
  let ?st3 = "log_effect (WriteFile OutputFile (join [NL] valid))
                  (st2\<lparr>output_file := Some (join [NL] valid)\<rparr>)"
  have run: "snd (scrapeValidateAndInject w st) = setEnvProxy (Some chosen) ?st3"
    using f v ne c(2) by (simp add: scrapeValidateAndInject_def Let_def)
  have "set valid \<subseteq> set allProxies"
    using set_validateProxies [of w st1 allProxies] v by simp
  moreover have "\<forall>p\<in>set allProxies. NL \<notin> set p"
    using fetch_no_NL [of _ w st] f by simp
  ultimately have "\<forall>p\<in>set valid. NL \<notin> set p" by blast
  with ne(2) have lines: "split_char NL (join [NL] valid) = valid"
    by (intro split_char_join)
  have out: "output_file (setEnvProxy (Some chosen) ?st3) = Some (join [NL] valid)"
    by (simp add: output_file_setEnvProxy log_effect_def)
  have "same_store st st1"
    using same_store_fetch [of st w] f by simp
  moreover have "same_store st1 st2"
    using same_store_validateProxies [of st1 w allProxies] v by simp
  ultimately have "env_file st2 = env_file st"
    by (simp add: same_store_def)
  then have "env_file (setEnvProxy (Some chosen) ?st3) =
      Some (join [NL] (filter (\<lambda>l. \<not> startsWith l key_prefix) (file_lines (env_file st))
                       @ [key_prefix @ chosen]))"
    by (simp add: setEnvProxy_def Let_def log_effect_def file_lines_def template_def)
  with run out lines c(1) show ?thesis by auto
qed

text \<open>
  The theorem in the world of the scenario, from the store with three lines:
  \<^verbatim>\<open>Math.random()\<close> returns one half, two of the three candidates validate, and the
  second one is chosen.
\<close>

theorem refresh_installs_pool_member_witness:
  "is_unit_double (math_random scenario_world)
   \<and> fst (scrapeValidateAndInject scenario_world st_env)
   \<and> output_file (snd (scrapeValidateAndInject scenario_world st_env)) =
       Some (js ''http://1.2.3.4:8080\<newline>https://9.9.9.9:443'')
   \<and> file_lines (env_file (snd (scrapeValidateAndInject scenario_world st_env))) =
       [js ''A=1'', js ''B=2'', js ''PROXY_SERVER=https://9.9.9.9:443'']"
proof -
  have r: "is_unit_double (math_random scenario_world)"
    by (simp add: scenario_world_def is_unit_double_def)
  have ok: "fst (scrapeValidateAndInject scenario_world st_env)"
    by (simp add: run_defs eval_defs)
  have e: "file_lines (env_file (snd (scrapeValidateAndInject scenario_world st_env))) =
       [js ''A=1'', js ''B=2'', js ''PROXY_SERVER=https://9.9.9.9:443'']"
    by (simp add: run_defs eval_defs)
  have v: "fst (validateProxies scenario_world (snd (fetchGitHubProxies scenario_world st_env))
             (fst (fetchGitHubProxies scenario_world st_env))) =
           [js ''http://1.2.3.4:8080'', js ''https://9.9.9.9:443'']"
    by (simp add: run_defs eval_defs)
  from refresh_installs_pool_member [OF r _ _ ok,
      of "fst (fetchGitHubProxies scenario_world st_env)"
         "snd (fetchGitHubProxies scenario_world st_env)"
         "fst (validateProxies scenario_world (snd (fetchGitHubProxies scenario_world st_env))
             (fst (fetchGitHubProxies scenario_world st_env)))"
         "snd (validateProxies scenario_world (snd (fetchGitHubProxies scenario_world st_env))
             (fst (fetchGitHubProxies scenario_world st_env)))"]
  have "output_file (snd (scrapeValidateAndInject scenario_world st_env)) =
      Some (join [NL] (fst (validateProxies scenario_world
             (snd (fetchGitHubProxies scenario_world st_env))
             (fst (fetchGitHubProxies scenario_world st_env)))))"
    by auto
  with v have "output_file (snd (scrapeValidateAndInject scenario_world st_env)) =
       Some (js ''http://1.2.3.4:8080\<newline>https://9.9.9.9:443'')"
    by (simp add: js_def NL_def)
  with r ok e show ?thesis by simp
qed

text \<open>
  Claim C2. If the fetch returns no candidate, or \<^verbatim>\<open>validateProxies\<close> returns no valid
  proxy, the refresh cycle returns \<^verbatim>\<open>false\<close> and has written nothing: \<^verbatim>\<open>.env\<close> and
  the pool listing file are as before, and no write is among the effects of the cycle.
\<close>

theorem failed_refresh_writes_nothing:
  assumes "fst (fetchGitHubProxies w st) = [] \<or>
           fst (validateProxies w (snd (fetchGitHubProxies w st)) (fst (fetchGitHubProxies w st))) = []"
  shows "fst (scrapeValidateAndInject w st) = False
       \<and> env_file (snd (scrapeValidateAndInject w st)) = env_file st
       \<and> output_file (snd (scrapeValidateAndInject w st)) = output_file st
       \<and> filter is_write (effects (snd (scrapeValidateAndInject w st))) =
           filter is_write (effects st)"
proof -
  obtain allProxies st1 where f: "fetchGitHubProxies w st = (allProxies, st1)"
    by (cases "fetchGitHubProxies w st")
  obtain valid st2 where v: "validateProxies w st1 allProxies = (valid, st2)"
    by (cases "validateProxies w st1 allProxies")
  have s1: "same_store st st1"
    using same_store_fetch [of st w] f by simp
  have s2: "same_store st1 st2"
    using same_store_validateProxies [of st1 w allProxies] v by simp
  from assms f v have "allProxies = [] \<or> valid = []" by simp
  then have "scrapeValidateAndInject w st = (False, st1) \<or>
             scrapeValidateAndInject w st = (False, st2)"
    using f v by (auto simp: scrapeValidateAndInject_def)
  moreover have "same_store st st2"
    using s1 s2 by (rule same_store_trans)
  ultimately show ?thesis
    using s1 by (auto simp: same_store_def)
qed

text \<open>
  The theorem where every source fails, and where a source lists a proxy that does not
  validate.
\<close>

theorem failed_refresh_writes_nothing_witness:
  "fst (fetchGitHubProxies dead_world st_env) = []
   \<and> fst (scrapeValidateAndInject dead_world st_env) = False
   \<and> env_file (snd (scrapeValidateAndInject dead_world st_env)) = env_file st_env
   \<and> fst (fetchGitHubProxies half_world st_env) = [js ''https://9.9.9.9:443'']
   \<and> fst (validateProxies half_world (snd (fetchGitHubProxies half_world st_env))
          (fst (fetchGitHubProxies half_world st_env))) = []
   \<and> fst (scrapeValidateAndInject half_world st_env) = False
   \<and> env_file (snd (scrapeValidateAndInject half_world st_env)) = env_file st_env
   \<and> output_file (snd (scrapeValidateAndInject half_world st_env)) = None"
proof -
  have h: "fst (fetchGitHubProxies dead_world st_env) = []"
    by (rule dead_fetch)
  have f: "fst (fetchGitHubProxies half_world st_env) = [js ''https://9.9.9.9:443'']"
    by (simp add: run_defs eval_defs half_world_def half_get_def)
  have v: "fst (validateProxies half_world (snd (fetchGitHubProxies half_world st_env))
          (fst (fetchGitHubProxies half_world st_env))) = []"
    by (simp add: run_defs eval_defs half_world_def half_get_def)
  have o: "output_file st_env = None" by (simp add: st_env_def)
  from h f v o failed_refresh_writes_nothing [of dead_world st_env]
    failed_refresh_writes_nothing [of half_world st_env]
  show ?thesis by simp
qed

section \<open>The quota of \<^verbatim>\<open>validateProxies\<close>\<close>

text \<open>
  Claim C3. When the outcome of validating a candidate depends on the candidate only
  (\<open>ok\<close>), \<^verbatim>\<open>validateProxies\<close> returns the first 100 candidates that validate, in the
  order of the list: their number is the minimum of 100 and the number of candidates
  that validate, each of them is a candidate that validates, and once a part of the
  list holds 100 candidates that validate, whatever follows it is not looked at: the
  result and the state, so the requests made, are those for that part alone.
\<close>

theorem validateProxies_quota:
  assumes "\<And>st p. fst (validateSingleProxy w st p) = ok p"
  shows "fst (validateProxies w st xs) = take 100 (filter ok xs)
       \<and> length (fst (validateProxies w st xs)) = min 100 (length (filter ok xs))
       \<and> set (fst (validateProxies w st xs)) \<subseteq> {p \<in> set xs. ok p}
       \<and> (100 \<le> length (filter ok xs) \<longrightarrow>
            validateProxies w st (xs @ ys) = validateProxies w st xs)"
proof -
  have r: "fst (validateProxies w st xs) = take 100 (filter ok xs)"
    using validate_loop_fixed [OF assms, of xs "[]" st] by (simp add: validateProxies_def)
  have "set (take 100 (filter ok xs)) \<subseteq> set (filter ok xs)"
    by (rule set_take_subset)
  then have s: "set (take 100 (filter ok xs)) \<subseteq> {p \<in> set xs. ok p}" by auto
  have "100 \<le> length (filter ok xs) \<longrightarrow>
            validateProxies w st (xs @ ys) = validateProxies w st xs"
    using validate_loop_stops [OF assms, of "[]" xs ys st] by (simp add: validateProxies_def)
  with r s show ?thesis by (simp add: min.commute)
qed

text \<open>
  The theorem in the world of the scenario: 150 candidates that validate give 100, a
  candidate after 100 successes changes nothing, and of three candidates the two that
  validate are returned.
\<close>

theorem validateProxies_quota_witness:
  "fst (validateProxies scenario_world st_absent (replicate 150 (js ''http://1.2.3.4:8080''))) =
     replicate 100 (js ''http://1.2.3.4:8080'')
   \<and> validateProxies scenario_world st_absent
        (replicate 100 (js ''http://1.2.3.4:8080'') @ [js ''http://5.6.7.8:3128'']) =
      validateProxies scenario_world st_absent (replicate 100 (js ''http://1.2.3.4:8080''))
   \<and> fst (validateProxies scenario_world st_absent
        [js ''http://1.2.3.4:8080'', js ''http://5.6.7.8:3128'', js ''https://9.9.9.9:443'']) =
      [js ''http://1.2.3.4:8080'', js ''https://9.9.9.9:443'']"
proof -
  have g: "scenario_good (js ''http://1.2.3.4:8080'')" "scenario_good (js ''https://9.9.9.9:443'')"
    "\<not> scenario_good (js ''http://5.6.7.8:3128'')"
    by (simp_all add: scenario_good_def js_def)
  note q = validateProxies_quota [of scenario_world scenario_good, OF scenario_fixed]
  have "fst (validateProxies scenario_world st_absent (replicate 150 (js ''http://1.2.3.4:8080''))) =
     replicate 100 (js ''http://1.2.3.4:8080'')"
    using q [of st_absent "replicate 150 (js ''http://1.2.3.4:8080'')"] g by simp
  moreover have "validateProxies scenario_world st_absent
        (replicate 100 (js ''http://1.2.3.4:8080'') @ [js ''http://5.6.7.8:3128'']) =
      validateProxies scenario_world st_absent (replicate 100 (js ''http://1.2.3.4:8080''))"
    using q [of st_absent "replicate 100 (js ''http://1.2.3.4:8080'')" "[js ''http://5.6.7.8:3128'']"] g
    by simp
  moreover have "fst (validateProxies scenario_world st_absent
        [js ''http://1.2.3.4:8080'', js ''http://5.6.7.8:3128'', js ''https://9.9.9.9:443'']) =
      [js ''http://1.2.3.4:8080'', js ''https://9.9.9.9:443'']"
    using q [of st_absent "[js ''http://1.2.3.4:8080'', js ''http://5.6.7.8:3128'', js ''https://9.9.9.9:443'']"] g
    by simp
  ultimately show ?thesis by simp
qed

section \<open>The scheduler has no guard\<close>

text \<open>
  Claim C4, as amended. The first check cycle runs alone: the timer is armed only when
  that cycle has returned, so no tick can start a cycle before, and as long as the timer
  is not armed exactly one cycle is running, whatever has happened. Once the timer is
  armed, every tick starts a check cycle, whatever the number of cycles still running: a
  tick is never skipped, and \<open>n\<close> ticks with no cycle completing in between add \<open>n\<close>
  running cycles.
\<close>

theorem ticks_start_overlapping_cycles:
  "sched_run main_start (replicate n TimerTick) = main_start
   \<and> (\<not> interval_armed (sched_run main_start evs) \<longrightarrow>
        active_cycles (sched_run main_start evs) = 1)
   \<and> sched_run main_start [CycleCompletes] = \<lparr>interval_armed = True, active_cycles = 0\<rparr>
   \<and> (interval_armed s \<longrightarrow>
        active_cycles (sched_step s TimerTick) = active_cycles s + 1
        \<and> active_cycles (sched_run s (replicate n TimerTick)) = active_cycles s + n)"
proof -
  have "\<not> interval_armed main_start" by (simp add: main_start_def)
  then have a: "sched_run main_start (replicate n TimerTick) = main_start"
    by (rule sched_run_unarmed_ticks)
  have b: "\<not> interval_armed (sched_run main_start evs) \<longrightarrow>
        active_cycles (sched_run main_start evs) = 1"
    using first_cycle_alone [of main_start evs] by (simp add: main_start_def)
  have c: "sched_run main_start [CycleCompletes] = \<lparr>interval_armed = True, active_cycles = 0\<rparr>"
    by (simp add: sched_run_def main_start_def)
  have d: "interval_armed s \<longrightarrow>
        active_cycles (sched_step s TimerTick) = active_cycles s + 1
        \<and> active_cycles (sched_run s (replicate n TimerTick)) = active_cycles s + n"
    by (simp add: sched_run_ticks)
  from a b c d show ?thesis by blast
qed

text \<open>
  The theorem at three ticks: before the first cycle has returned they change nothing
  and one cycle is running; after it has returned they leave three running cycles.
\<close>

theorem ticks_start_overlapping_cycles_witness:
  "sched_run main_start (replicate 3 TimerTick) = main_start
   \<and> \<not> interval_armed (sched_run main_start [TimerTick, TimerTick])
   \<and> active_cycles (sched_run main_start [TimerTick, TimerTick]) = 1
   \<and> interval_armed (sched_run main_start [CycleCompletes])
   \<and> active_cycles (sched_run main_start [CycleCompletes]) = 0
   \<and> active_cycles (sched_run (sched_run main_start [CycleCompletes]) (replicate 3 TimerTick)) = 3"
proof -
  have u: "\<not> interval_armed (sched_run main_start [TimerTick, TimerTick])"
    by (simp add: sched_run_def main_start_def)
  have h: "interval_armed (sched_run main_start [CycleCompletes])"
    by (simp add: sched_run_def main_start_def)
  have z: "active_cycles (sched_run main_start [CycleCompletes]) = 0"
    by (simp add: sched_run_def main_start_def)
  have c: "sched_run main_start [CycleCompletes] = \<lparr>interval_armed = True, active_cycles = 0\<rparr>"
    by (simp add: sched_run_def main_start_def)
  from u h z
    ticks_start_overlapping_cycles [of 3 "[TimerTick, TimerTick]"
      "\<lparr>interval_armed = True, active_cycles = 0\<rparr>"]
  show ?thesis by (simp add: c)
qed

text \<open>
  Claim C4 as stated fails: after the first cycle has returned, two ticks with no
  cycle completing in between leave two check cycles running at once.
\<close>

theorem single_flight_counterexample:
  "active_cycles (sched_run main_start [CycleCompletes, TimerTick, TimerTick]) = 2"
  by (simp add: sched_run_def main_start_def)

section \<open>Validation of one proxy never throws\<close>

text \<open>
  Claim C5. \<^verbatim>\<open>validateSingleProxy\<close> returns \<^verbatim>\<open>true\<close> exactly when the agent could be
  built and the request through it was answered with status 200. Every exception of its
  \<^verbatim>\<open>try\<close> block gives \<^verbatim>\<open>false\<close>, and a result of the block is returned as it is, so
  nothing is thrown. It issues one request, or none when the agent could not be built,
  and touches nothing else: there is no second attempt.
\<close>

theorem validateSingleProxy_true_iff_200:
  "(fst (validateSingleProxy w st p) \<longleftrightarrow>
      \<not> agent_throws w (proxy_agent p) \<and>
      (\<exists>resp. axios_get w (now st) (validation_request p) = Inr resp \<and> status resp = 200))
   \<and> (case fst (validate_try w st p) of
         Inl e \<Rightarrow> fst (validateSingleProxy w st p) = False
       | Inr isOk \<Rightarrow> fst (validateSingleProxy w st p) = isOk)
   \<and> snd (validateSingleProxy w st p) =
       (if agent_throws w (proxy_agent p) then st
        else log_effect (HttpGet (validation_request p)) st)"
proof -
  have "case fst (validate_try w st p) of
         Inl e \<Rightarrow> fst (validateSingleProxy w st p) = False
       | Inr isOk \<Rightarrow> fst (validateSingleProxy w st p) = isOk"
    by (cases "validate_try w st p") (auto simp: validateSingleProxy_def split: sum.splits)
  then show ?thesis
    using validateSingleProxy_fst [of w st p] validateSingleProxy_snd [of w st p] by simp
qed

text \<open>
  The theorem in the world of the scenario: a proxy that answers 200, and one through
  which the request fails after one attempt.
\<close>

theorem validateSingleProxy_true_iff_200_witness:
  "fst (validateSingleProxy scenario_world st_absent (js ''http://1.2.3.4:8080''))
   \<and> \<not> fst (validateSingleProxy scenario_world st_absent (js ''http://5.6.7.8:3128''))
   \<and> effects (snd (validateSingleProxy scenario_world st_absent (js ''http://5.6.7.8:3128''))) =
       [HttpGet (validation_request (js ''http://5.6.7.8:3128''))]"
proof -
  have a: "axios_get scenario_world (now st_absent) (validation_request (js ''http://1.2.3.4:8080''))
      = Inr \<lparr>status = 200, data = JsOther True\<rparr>"
    by (simp add: scenario_world_def scenario_get_def scenario_good_def validation_request_def
        proxy_agent_def)
  have b: "axios_get scenario_world (now st_absent) (validation_request (js ''http://5.6.7.8:3128''))
      = Inl AxiosError"
    by (simp add: scenario_world_def scenario_get_def scenario_good_def validation_request_def
        proxy_agent_def js_def)
  have c: "agent_throws scenario_world = (\<lambda>a. False)"
    by (simp add: scenario_world_def)
  have d: "effects st_absent = []" by (simp add: st_absent_def)
  from validateSingleProxy_true_iff_200 [of scenario_world st_absent "js ''http://1.2.3.4:8080''"]
    validateSingleProxy_true_iff_200 [of scenario_world st_absent "js ''http://5.6.7.8:3128''"]
  show ?thesis by (simp add: a b c d log_effect_def)
qed

section \<open>The fetch\<close>

text \<open>
  Claim C6. Both sources are requested, whatever the first one does. If one source
  fails entirely and the other yields a candidate line, the result is not empty; the
  result is empty exactly when neither source yields a candidate line; and on an empty
  result the refresh cycle returns \<^verbatim>\<open>false\<close> in the state the fetch left.
\<close>

theorem fetch_survives_one_failed_source:
  "(source_fails (source_outcome w st 0) \<and> source_yield (source_outcome w st 1) \<noteq> []
      \<longrightarrow> fst (fetchGitHubProxies w st) \<noteq> [])
   \<and> (source_fails (source_outcome w st 1) \<and> source_yield (source_outcome w st 0) \<noteq> []
      \<longrightarrow> fst (fetchGitHubProxies w st) \<noteq> [])
   \<and> (fst (fetchGitHubProxies w st) = [] \<longleftrightarrow>
        source_yield (source_outcome w st 0) = [] \<and> source_yield (source_outcome w st 1) = [])
   \<and> snd (fetchGitHubProxies w st) =
        log_effect (HttpGet (source_request (GITHUB_SOURCES ! 1)))
          (log_effect (HttpGet (source_request (GITHUB_SOURCES ! 0))) st)
   \<and> (fst (fetchGitHubProxies w st) = [] \<longrightarrow>
        scrapeValidateAndInject w st = (False, snd (fetchGitHubProxies w st)))"
proof -
  have "fst (fetchGitHubProxies w st) = [] \<longrightarrow>
        scrapeValidateAndInject w st = (False, snd (fetchGitHubProxies w st))"
    by (cases "fetchGitHubProxies w st") (simp add: scrapeValidateAndInject_def)
  moreover have "snd (fetchGitHubProxies w st) =
        log_effect (HttpGet (source_request (GITHUB_SOURCES ! 1)))
          (log_effect (HttpGet (source_request (GITHUB_SOURCES ! 0))) st)"
    by (simp add: fetchGitHubProxies_eq)
  ultimately show ?thesis
    using fetch_empty_iff [of w st] by blast
qed

text \<open>
  The theorem where the first source fails and the second lists one proxy, and where
  both sources fail.
\<close>

theorem fetch_survives_one_failed_source_witness:
  "source_fails (source_outcome half_world st_absent 0)
   \<and> source_yield (source_outcome half_world st_absent 1) = [js ''https://9.9.9.9:443'']
   \<and> fst (fetchGitHubProxies half_world st_absent) \<noteq> []
   \<and> fst (fetchGitHubProxies dead_world st_absent) = []
   \<and> fst (scrapeValidateAndInject dead_world st_absent) = False"
proof -
  have h1: "source_fails (source_outcome half_world st_absent 0)"
    by (simp add: source_fails_def source_outcome_def half_world_def half_get_def
        source_request_def GITHUB_SOURCES_def js_def)
  have h2: "source_yield (source_outcome half_world st_absent 1) = [js ''https://9.9.9.9:443'']"
    by (simp add: source_yield_def source_outcome_def half_world_def half_get_def
        source_request_def GITHUB_SOURCES_def data_lines_def eval_defs)
  have h3: "fst (fetchGitHubProxies dead_world st_absent) = []"
    by (rule dead_fetch)
  from h1 h2 h3 fetch_survives_one_failed_source [of half_world st_absent]
    fetch_survives_one_failed_source [of dead_world st_absent]
  show ?thesis by simp
qed




section \<open>The check cycle\<close>

text \<open>
  Claim C8. When \<^verbatim>\<open>getCurrentProxyFromEnv\<close> finds a non-empty active proxy and its
  validation succeeds, the only effect of \<^verbatim>\<open>checkCurrentProxy\<close> is the one request of
  that validation: no source is requested, no candidate is validated, and both files are
  untouched.
\<close>

theorem valid_active_proxy_untouched:
  assumes "getCurrentProxyFromEnv st = Some p" and "p \<noteq> []"
    and "fst (validateSingleProxy w st p)"
  shows "checkCurrentProxy w st = log_effect (HttpGet (validation_request p)) st
       \<and> env_file (checkCurrentProxy w st) = env_file st
       \<and> output_file (checkCurrentProxy w st) = output_file st
       \<and> effects (checkCurrentProxy w st) = effects st @ [HttpGet (validation_request p)]"
proof -
  from assms(3) have "\<not> agent_throws w (proxy_agent p)"
    by (simp add: validateSingleProxy_fst)
  then have "snd (validateSingleProxy w st p) = log_effect (HttpGet (validation_request p)) st"
    by (simp add: validateSingleProxy_snd)
  with assms have "checkCurrentProxy w st = log_effect (HttpGet (validation_request p)) st"
    by (cases "validateSingleProxy w st p") (simp add: checkCurrentProxy_def)
  then show ?thesis by (simp add: log_effect_def)
qed

text \<open>
  The theorem for a store whose active proxy is \<^verbatim>\<open>http://1.1.1.1:80\<close>, which answers.
\<close>

theorem valid_active_proxy_untouched_witness:
  "getCurrentProxyFromEnv st_active = Some (js ''http://1.1.1.1:80'')
   \<and> fst (validateSingleProxy scenario_world st_active (js ''http://1.1.1.1:80''))
   \<and> env_file (checkCurrentProxy scenario_world st_active) = env_file st_active
   \<and> output_file (checkCurrentProxy scenario_world st_active) = None
   \<and> effects (checkCurrentProxy scenario_world st_active) =
       [HttpGet (Request TEST_URL 5000 (Some (HttpProxyAgent (js ''http://1.1.1.1:80''))))]"
proof -
  have h1: "getCurrentProxyFromEnv st_active = Some (js ''http://1.1.1.1:80'')"
    by (simp add: st_active_def eval_defs)
  have h2: "js ''http://1.1.1.1:80'' \<noteq> []" by (simp add: js_def)
  have h3: "fst (validateSingleProxy scenario_world st_active (js ''http://1.1.1.1:80''))"
    by (simp add: scenario_fixed scenario_good_def)
  have "validation_request (js ''http://1.1.1.1:80'') =
      Request TEST_URL 5000 (Some (HttpProxyAgent (js ''http://1.1.1.1:80'')))"
    by (simp add: validation_request_def proxy_agent_def js_def startsWith_def)
  moreover have "output_file st_active = None" "effects st_active = []"
    by (simp_all add: st_active_def)
  ultimately show ?thesis
    using h1 h3 valid_active_proxy_untouched [OF h1 h2 h3] by (simp add: log_effect_def)
qed

section \<open>What \<^verbatim>\<open>setEnvProxy\<close> keeps\<close>

text \<open>
  Claim C10. For every argument of \<^verbatim>\<open>setEnvProxy\<close> with no newline in it, and every
  store, the lines of \<^verbatim>\<open>.env\<close> after the call are the lines before that do not start
  with \<^verbatim>\<open>PROXY_SERVER=\<close>, in their order, followed by one line \<^verbatim>\<open>PROXY_SERVER=\<close>
  with the argument as it is read back: the other lines are kept in order, exactly one
  line starts with \<^verbatim>\<open>PROXY_SERVER=\<close>, and it is the last line. An absent file counts as
  no line. The program calls \<^verbatim>\<open>setEnvProxy\<close> in a refresh cycle that returns
  \<^verbatim>\<open>true\<close> and nowhere else, and there the argument has no newline: the same holds of
  the lines of \<^verbatim>\<open>.env\<close> before and after every such cycle.
\<close>

theorem setEnvProxy_keeps_other_lines:
  "(NL \<notin> set (template proxyUrl) \<longrightarrow>
      file_lines (env_file (setEnvProxy proxyUrl st)) =
        filter (\<lambda>l. \<not> startsWith l key_prefix) (file_lines (env_file st))
        @ [key_prefix @ utf8_text (template proxyUrl)]
      \<and> filter (\<lambda>l. \<not> startsWith l key_prefix) (file_lines (env_file (setEnvProxy proxyUrl st))) =
          filter (\<lambda>l. \<not> startsWith l key_prefix) (file_lines (env_file st))
      \<and> filter (\<lambda>l. startsWith l key_prefix) (file_lines (env_file (setEnvProxy proxyUrl st))) =
          [key_prefix @ utf8_text (template proxyUrl)]
      \<and> last (file_lines (env_file (setEnvProxy proxyUrl st))) =
          key_prefix @ utf8_text (template proxyUrl))
   \<and> (fst (scrapeValidateAndInject w st) \<longrightarrow>
      (\<exists>entry.
         file_lines (env_file (snd (scrapeValidateAndInject w st))) =
           filter (\<lambda>l. \<not> startsWith l key_prefix) (file_lines (env_file st))
           @ [key_prefix @ entry]
         \<and> filter (\<lambda>l. \<not> startsWith l key_prefix)
               (file_lines (env_file (snd (scrapeValidateAndInject w st)))) =
             filter (\<lambda>l. \<not> startsWith l key_prefix) (file_lines (env_file st))
         \<and> filter (\<lambda>l. startsWith l key_prefix)
               (file_lines (env_file (snd (scrapeValidateAndInject w st)))) =
             [key_prefix @ entry]
         \<and> last (file_lines (env_file (snd (scrapeValidateAndInject w st)))) =
             key_prefix @ entry))"
proof -
  have key: "\<And>e. startsWith (key_prefix @ e) key_prefix"
    by (simp add: startsWith_def)
  have one: "NL \<notin> set (template proxyUrl) \<longrightarrow>
      file_lines (env_file (setEnvProxy proxyUrl st)) =
        filter (\<lambda>l. \<not> startsWith l key_prefix) (file_lines (env_file st))
        @ [key_prefix @ utf8_text (template proxyUrl)]"
    by (simp add: file_lines_setEnvProxy)
  have "fst (scrapeValidateAndInject w st) \<longrightarrow>
      (\<exists>entry. file_lines (env_file (snd (scrapeValidateAndInject w st))) =
           filter (\<lambda>l. \<not> startsWith l key_prefix) (file_lines (env_file st))
           @ [key_prefix @ entry])"
    using refresh_env_lines [of w st] by blast
  then have two: "fst (scrapeValidateAndInject w st) \<longrightarrow>
      (\<exists>entry.
         file_lines (env_file (snd (scrapeValidateAndInject w st))) =
           filter (\<lambda>l. \<not> startsWith l key_prefix) (file_lines (env_file st))
           @ [key_prefix @ entry]
         \<and> filter (\<lambda>l. \<not> startsWith l key_prefix)
               (file_lines (env_file (snd (scrapeValidateAndInject w st)))) =
             filter (\<lambda>l. \<not> startsWith l key_prefix) (file_lines (env_file st))
         \<and> filter (\<lambda>l. startsWith l key_prefix)
               (file_lines (env_file (snd (scrapeValidateAndInject w st)))) =
             [key_prefix @ entry]
         \<and> last (file_lines (env_file (snd (scrapeValidateAndInject w st)))) =
             key_prefix @ entry)"
    using key by auto
  from one key two show ?thesis by simp
qed

text \<open>
  The theorem at the store with three lines: \<^verbatim>\<open>setEnvProxy\<close> with
  \<^verbatim>\<open>http://1.2.3.4:80\<close>, and a refresh cycle in the world of the scenario.
\<close>

theorem setEnvProxy_keeps_other_lines_witness:
  "NL \<notin> set (template (Some (js ''http://1.2.3.4:80'')))
   \<and> file_lines (env_file st_env) = [js ''A=1'', js ''PROXY_SERVER=old'', js ''B=2'']
   \<and> file_lines (env_file (setEnvProxy (Some (js ''http://1.2.3.4:80'')) st_env)) =
       [js ''A=1'', js ''B=2'', js ''PROXY_SERVER=http://1.2.3.4:80'']
   \<and> fst (scrapeValidateAndInject scenario_world st_env)
   \<and> filter (\<lambda>l. \<not> startsWith l key_prefix)
         (file_lines (env_file (snd (scrapeValidateAndInject scenario_world st_env)))) =
       [js ''A=1'', js ''B=2'']"
proof -
  have h: "NL \<notin> set (template (Some (js ''http://1.2.3.4:80'')))"
    by (simp add: template_def js_def NL_def)
  have l: "file_lines (env_file st_env) = [js ''A=1'', js ''PROXY_SERVER=old'', js ''B=2'']"
    by (simp add: st_env_def eval_defs)
  have ok: "fst (scrapeValidateAndInject scenario_world st_env)"
    by (simp add: run_defs eval_defs)
  have k: "filter (\<lambda>l. \<not> startsWith l key_prefix)
      [js ''A=1'', js ''PROXY_SERVER=old'', js ''B=2''] = [js ''A=1'', js ''B=2'']"
    by (simp add: eval_defs)
  have t: "key_prefix @ utf8_text (template (Some (js ''http://1.2.3.4:80''))) =
      js ''PROXY_SERVER=http://1.2.3.4:80''"
    by (simp add: eval_defs)
  from setEnvProxy_keeps_other_lines
    [of "Some (js ''http://1.2.3.4:80'')" st_env scenario_world] h ok
  have "file_lines (env_file (setEnvProxy (Some (js ''http://1.2.3.4:80'')) st_env)) =
        filter (\<lambda>l. \<not> startsWith l key_prefix) (file_lines (env_file st_env))
        @ [key_prefix @ utf8_text (template (Some (js ''http://1.2.3.4:80'')))]"
    and "filter (\<lambda>l. \<not> startsWith l key_prefix)
         (file_lines (env_file (snd (scrapeValidateAndInject scenario_world st_env)))) =
       filter (\<lambda>l. \<not> startsWith l key_prefix) (file_lines (env_file st_env))"
    by blast+
  with h l ok k t show ?thesis by simp
qed

section \<open>Reading back what \<^verbatim>\<open>setEnvProxy\<close> wrote\<close>

text \<open>
  Claim C9 says that \<^verbatim>\<open>getCurrentProxyFromEnv\<close> returns what \<^verbatim>\<open>setEnvProxy\<close> was
  given, whatever \<^verbatim>\<open>.env\<close> held before. The program does not do that when \<^verbatim>\<open>.env\<close>
  holds an indented entry: \<^verbatim>\<open>setEnvProxy\<close> removes the lines that start with
  \<^verbatim>\<open>PROXY_SERVER=\<close> as they are, while \<^verbatim>\<open>getCurrentProxyFromEnv\<close> trims each line
  before it looks for \<^verbatim>\<open>PROXY_SERVER=\<close>. The indented entry stays in the file, before the
  new one, and it is the one read back: after \<^verbatim>\<open>setEnvProxy\<close> with
  \<^verbatim>\<open>http://new:2\<close>, and also after a whole check cycle that found the old proxy dead and
  installed another one.
\<close>

theorem stale_indented_entry:
  "js ''http://new:2'' \<noteq> [] \<and> NL \<notin> set (js ''http://new:2'') \<and> EQ \<notin> set (js ''http://new:2'')
   \<and> getCurrentProxyFromEnv (setEnvProxy (Some (js ''http://new:2'')) st_stale) =
       Some (js ''http://old:1'')
   \<and> file_lines (env_file (checkCurrentProxy scenario_world st_stale)) =
       [js '' PROXY_SERVER=http://old:1'', js ''PROXY_SERVER=https://9.9.9.9:443'']
   \<and> getCurrentProxyFromEnv (checkCurrentProxy scenario_world st_stale) =
       Some (js ''http://old:1'')"
  by (simp add: st_stale_def checkCurrentProxy_def run_defs eval_defs)

end
